theory Spec2Isabelle
  imports Complex_Main "HOL-Library.Log_Nat"
begin

section \<open>The server of \<^verbatim>\<open>src/server.ts\<close>\<close>

text \<open>
  The source file holds an Express server with two JSON routes and, after a separator,
  the React dashboard that consumes them. A number that the server sends as a decimal
  literal of the source is the \<^typ>\<open>real\<close> that the literal denotes (JSON prints the
  literal back). Where the server computes, in the simulation route, numbers are doubles
  and the arithmetic rounds as JavaScript does.
\<close>

subsection \<open>The payload of \<^verbatim>\<open>/api/stats\<close> (interface \<^verbatim>\<open>Stats\<close>)\<close>

record source_entry =
  name :: string
  volume :: real
  weight :: real

record live_rush =
  index :: real
  status :: string
  sources :: "source_entry list"

record stats =
  avgRiderWait :: real
  etaErrorP90 :: real
  orderVolume :: real
  activeMerchants :: real
  improvement :: real
  liveRush :: live_rush

subsection \<open>Requests and the SQLite database\<close>

text \<open>
  A request as Express hands it to a handler. Both handlers of the source name their
  parameter \<^verbatim>\<open>req\<close> and never use it.
\<close>

record request =
  req_method :: string
  path :: string
  query :: "(string \<times> string) list"
  headers :: "(string \<times> string) list"
  body :: string

text \<open>
  The database \<^verbatim>\<open>db\<close> is a module-level value: a finite collection of named tables,
  each with its column names and its rows.
\<close>

record table =
  columns :: "string list"
  rows :: "string option list list"

type_synonym database = "string \<rightharpoonup> table"

definition orders_columns :: "string list" where
  "orders_columns =
     [''id'', ''restaurant_id'', ''order_time'', ''manual_for_time'', ''actual_ready_time'',
      ''rider_arrival_time'', ''total_kitchen_load'', ''source'']"

text \<open>\<^verbatim>\<open>db.exec(`CREATE TABLE IF NOT EXISTS orders (...)`)\<close>, run once when the module loads.\<close>

definition init_db :: "database \<Rightarrow> database" where
  "init_db db =
     (case db ''orders'' of
        None \<Rightarrow> db(''orders'' \<mapsto> \<lparr>columns = orders_columns, rows = []\<rparr>)
      | Some t \<Rightarrow> db)"

subsection \<open>\<^verbatim>\<open>app.get("/api/stats", ...)\<close>\<close>

text \<open>
  A handler is a state transformer on the database: it returns the JSON value given to
  \<^verbatim>\<open>res.json\<close> and the database it leaves behind. The body of this handler is one
  object literal.
\<close>

definition stats_handler :: "request \<Rightarrow> database \<Rightarrow> stats \<times> database" where
  "stats_handler req db =
     (\<lparr>avgRiderWait = 42 / 10,
       etaErrorP90 = 85 / 10,
       orderVolume = 1250,
       activeMerchants = 320,
       improvement = 185 / 10,
       liveRush =
         \<lparr>index = 78,
          status = ''High'',
          sources =
            [\<lparr>name = ''Zomato Orders'', volume = 45, weight = 4 / 10\<rparr>,
             \<lparr>name = ''Competitor Orders'', volume = 32, weight = 35 / 100\<rparr>,
             \<lparr>name = ''In-Store Dining'', volume = 22, weight = 25 / 100\<rparr>]\<rparr>\<rparr>,
      db)"

subsection \<open>\<^verbatim>\<open>app.get("/api/simulation/data", ...)\<close>\<close>

record sim_order =
  id_sim :: string
  status_sim :: "string option"
  progress :: int
  isBiased :: bool
  load :: int

text \<open>The decimal rendering of a non-negative integer, as a template literal prints it.\<close>

definition digit_char :: "nat \<Rightarrow> char" where
  "digit_char d = ''0123456789'' ! d"

fun string_of_nat :: "nat \<Rightarrow> string" where
  "string_of_nat n =
     (if n < 10 then [digit_char n]
      else string_of_nat (n div 10) @ [digit_char (n mod 10)])"

declare string_of_nat.simps [simp del]

text \<open>
  Indexing a JavaScript array with a number: \<^verbatim>\<open>undefined\<close> (here \<open>None\<close>) outside
  the array.
\<close>

definition js_index :: "'a list \<Rightarrow> int \<Rightarrow> 'a option" where
  "js_index xs k = (if 0 \<le> k \<and> k < int (length xs) then Some (xs ! nat k) else None)"

subsection \<open>Double-precision arithmetic\<close>

text \<open>
  The simulation handler multiplies numbers, and JavaScript multiplies IEEE 754 doubles:
  the exact product is rounded to the nearest double, a tie going to the even mantissa,
  before \<^verbatim>\<open>Math.floor\<close> sees it. A finite double is an integer mantissa below
  \<open>2^53\<close> in absolute value times a power of two with an exponent from -1074 to 971;
  \<open>Double m e\<close> stands for \<open>m * 2^e\<close>.
\<close>

datatype double = Double int int

fun dval :: "double \<Rightarrow> real" where
  "dval (Double m e) = of_int m * 2 powi e"

definition is_double :: "double \<Rightarrow> bool" where
  "is_double d = (case d of Double m e \<Rightarrow> \<bar>m\<bar> < 2 ^ 53 \<and> - 1074 \<le> e \<and> e \<le> 971)"

text \<open>
  Rounding the exact value \<open>p * 2^e\<close> to a double. The mantissa keeps 53 bits, and
  the exponent does not go below -1074: \<open>s\<close> low bits are dropped, the remainder
  \<open>r\<close> decides the direction, and half a unit goes to the even neighbour. A mantissa of
  exactly \<open>2^53\<close> after rounding up is the double \<open>2^52\<close> at the next exponent. Overflow
  to \<^verbatim>\<open>Infinity\<close> (a value of \<open>2^1024\<close> or more) is left out: no product of the
  handler exceeds 100.
\<close>

definition round_to_double :: "int \<Rightarrow> int \<Rightarrow> double" where
  "round_to_double p e =
     (let s = nat (max 0 (max (bitlen \<bar>p\<bar> - 53) (- 1074 - e)));
          q = \<bar>p\<bar> div 2 ^ s;
          r = \<bar>p\<bar> mod 2 ^ s
      in Double (sgn p * (if 2 ^ s < 2 * r \<or> (2 * r = 2 ^ s \<and> odd q) then q + 1 else q))
           (e + int s))"

text \<open>The operator \<^verbatim>\<open>*\<close> on two doubles.\<close>

definition fmul :: "double \<Rightarrow> double \<Rightarrow> double" where
  "fmul x y =
     (case x of Double m e \<Rightarrow>
        (case y of Double m' e' \<Rightarrow> round_to_double (m * m') (e + e')))"

text \<open>\<^verbatim>\<open>Math.floor\<close> is exact: the largest integer not above the double.\<close>

definition math_floor :: "double \<Rightarrow> int" where
  "math_floor d = \<lfloor>dval d\<rfloor>"

text \<open>
  The literal \<^verbatim>\<open>0.7\<close> denotes the double nearest to seven tenths, with the bits
  \<^verbatim>\<open>0x3FE6666666666666\<close>; the literals 3, 100, 10 and 1 are doubles as they are.
\<close>

definition literal_0_7 :: double where
  "literal_0_7 = Double 6305039478318694 (- 53)"

text \<open>
  \<^verbatim>\<open>Math.random()\<close> is the only input of the handler. The argument \<open>random\<close> lists
  the doubles its successive calls return; the object literal for element \<open>i\<close> makes
  four calls, in the order of its fields, so element \<open>i\<close> sees calls \<open>4 * i\<close> to
  \<open>4 * i + 3\<close>. The sum \<^verbatim>\<open>Math.floor(...) + 1\<close> adds two small integers and is
  exact.
\<close>

definition simulation_order :: "(nat \<Rightarrow> double) \<Rightarrow> nat \<Rightarrow> sim_order" where
  "simulation_order random i =
     \<lparr>id_sim = ''ORD-'' @ string_of_nat i,
      status_sim =
        js_index [''preparing'', ''ready'', ''picked_up'']
          (math_floor (fmul (random (4 * i)) (Double 3 0))),
      progress = math_floor (fmul (random (4 * i + 1)) (Double 100 0)),
      isBiased = (dval (random (4 * i + 2)) > dval literal_0_7),
      load = math_floor (fmul (random (4 * i + 3)) (Double 10 0)) + 1\<rparr>"

definition simulation_handler ::
  "request \<Rightarrow> (nat \<Rightarrow> double) \<Rightarrow> database \<Rightarrow> sim_order list \<times> database" where
  "simulation_handler req random db = (map (simulation_order random) [0..<20], db)"

subsection \<open>Routing\<close>

text \<open>
  What the server answers. A request that reaches neither API route (its body is refused
  by the JSON parser, or its path matches no route) is answered by Express, the Vite
  middleware or the static files; they are outside the source and hold no reference to
  \<^verbatim>\<open>db\<close>, a constant of the module.
\<close>

datatype response =
  StatsJson stats
| SimulationJson "sim_order list"
| Passthrough

text \<open>
  Express decides whether a request matches a route; the decision procedure is the
  library's, so it is the parameter \<open>matches\<close>.
\<close>

definition handle_request ::
  "(string \<Rightarrow> request \<Rightarrow> bool) \<Rightarrow> request \<Rightarrow> (nat \<Rightarrow> double) \<Rightarrow> database
     \<Rightarrow> response \<times> database" where
  "handle_request matches req random db =
     (if matches ''/api/stats'' req then
        (case stats_handler req db of (payload, db') \<Rightarrow> (StatsJson payload, db'))
      else if matches ''/api/simulation/data'' req then
        (case simulation_handler req random db of (payload, db') \<Rightarrow> (SimulationJson payload, db'))
      else (Passthrough, db))"

text \<open>The server handling a sequence of requests, each with its own random draws.\<close>

fun serve ::
  "(string \<Rightarrow> request \<Rightarrow> bool) \<Rightarrow> (request \<times> (nat \<Rightarrow> double)) list \<Rightarrow> database
     \<Rightarrow> response list \<times> database" where
  "serve matches [] db = ([], db)"
| "serve matches ((req, random) # rest) db =
     (case handle_request matches req random db of
        (r, db') \<Rightarrow> (case serve matches rest db' of (rs, db'') \<Rightarrow> (r # rs, db'')))"

subsection \<open>The dashboard's rush badge (\<^verbatim>\<open>LiveRushIndicator\<close>)\<close>

text \<open>The class and the text of the badge in the component's header.\<close>

definition badge_class :: "live_rush \<Rightarrow> string" where
  "badge_class data =
     (if index data > 70 then ''bg-rose-50 text-rose-600''
      else ''bg-emerald-50 text-emerald-600'')"

definition badge_text :: "live_rush \<Rightarrow> string" where
  "badge_text data = status data @ '' Load''"

section \<open>The estimation core described by the specification\<close>

text \<open>
  The source holds no order state machine, no bias correction, no configuration loading
  and no aggregation of active orders: the server's numbers are literals. The
  definitions of this section follow the specification's sections 3, 4 and 6 instead,
  each marked as such. Timestamps and durations are real numbers of seconds.
\<close>

subsection \<open>Data model\<close>

text \<open>Modelled from the spec: the aggregation bucket of an order (section 3, \<^verbatim>\<open>source\<close>),
  which the source file has only as a comment on a database column.\<close>

datatype order_source = Zomato | InStore | Competitor

text \<open>Modelled from the spec: the kitchen-display stage (section 3, \<^verbatim>\<open>kdsStage\<close>), absent
  from the source file.\<close>

datatype kds_stage = StageNone | Started | Plating | Ready

text \<open>Modelled from the spec: the forward order none, started, plating, ready of the
  stages (section 3), absent from the source file.\<close>

fun stage_rank :: "kds_stage \<Rightarrow> nat" where
  "stage_rank StageNone = 0"
| "stage_rank Started = 1"
| "stage_rank Plating = 2"
| "stage_rank Ready = 3"

text \<open>Modelled from the spec: the lifecycle states of the OrderEstimator (section 4.2),
  absent from the source file.\<close>

datatype lifecycle =
  Placed | Preparing | ManuallyMarked | Validated | BiasFlagged | PickedUp | Abandoned

text \<open>Modelled from the spec: the Order record (section 3), absent from the source file. An
  optional timestamp is an \<open>option\<close>; \<^verbatim>\<open>correctedReadyAt\<close> is derived and has no value
  before the first computation.\<close>

record order =
  order_id :: string
  restaurantId :: string
  source :: order_source
  placedAt :: real
  manualReadyAt :: "real option"
  kdsStage :: kds_stage
  riderProximityAt :: "real option"
  correctedReadyAt :: "real option"
  biasDetected :: bool
  order_status :: lifecycle

text \<open>Modelled from the spec: the error taxonomy (section 7), absent from the source file.\<close>

datatype error =
  StaleEventError
| UnknownOrderError
| InvalidStageTransitionError
| DuplicateMarkError
| TerminalStateError
| ContentionError
| NotFoundError
| ConfigValidationError

text \<open>Modelled from the spec: the configuration consumed by the core (section 6), absent
  from the source file: the weights of each restaurant, the proximity window, the
  correction factor and the abandonment timeout.\<close>

record config =
  sourceWeights :: "(string \<times> (order_source \<Rightarrow> real)) list"
  proximityBiasWindow :: real
  correctionFactor :: real
  abandonTimeout :: real

text \<open>Modelled from the spec: the five event kinds of \<^verbatim>\<open>SignalBus.submit\<close> (section 4.1)
  with their payloads, absent from the source file.\<close>

datatype event_kind =
  OrderPlaced order_source
| ManualReadyMarked
| KdsStageUpdated kds_stage
| RiderProximityDetected
| OrderPickedUp

text \<open>Modelled from the spec: a signal event (section 4.1), absent from the source file.\<close>

record event =
  ev_orderId :: string
  ev_restaurantId :: string
  kind :: event_kind
  timestamp :: real

text \<open>Modelled from the spec: the state of the EstimationService (sections 2 and 4), absent
  from the source file: the validated configuration, the orders by id, and the audit trail
  of reported errors.\<close>

record service =
  cfg :: config
  orders :: "string \<rightharpoonup> order"
  audit :: "(string \<times> error) list"

subsection \<open>Configuration load\<close>

text \<open>Modelled from the spec: the sum of a restaurant's source weights (section 3), absent
  from the source file.\<close>

definition weight_sum :: "(order_source \<Rightarrow> real) \<Rightarrow> real" where
  "weight_sum w = w Zomato + w InStore + w Competitor"

text \<open>Modelled from the spec: the check \<^verbatim>\<open>sum == 1.0 +- 1e-6\<close> (sections 3 and 8), absent
  from the source file.\<close>

definition weights_valid :: "(order_source \<Rightarrow> real) \<Rightarrow> bool" where
  "weights_valid w = (\<bar>weight_sum w - 1\<bar> \<le> 1 / 1000000)"

text \<open>Modelled from the spec: validation at configuration load (sections 6 and 7), absent
  from the source file: every restaurant's weights sum to 1.0 within the tolerance and the
  correction factor is above 1.0; anything else is a \<^verbatim>\<open>ConfigValidationError\<close>.\<close>

definition load_config :: "config \<Rightarrow> error + config" where
  "load_config raw =
     (if list_all (\<lambda>rw. weights_valid (snd rw)) (sourceWeights raw) \<and> 1 < correctionFactor raw
      then Inr raw else Inl ConfigValidationError)"

text \<open>Modelled from the spec: start-up of the service (section 7), absent from the source
  file: a configuration error is fatal, otherwise the service starts with no orders.\<close>

definition start_service :: "config \<Rightarrow> error + service" where
  "start_service raw =
     (case load_config raw of
        Inl e \<Rightarrow> Inl e
      | Inr c \<Rightarrow> Inr \<lparr>cfg = c, orders = Map.empty, audit = []\<rparr>)"

subsection \<open>OrderEstimator\<close>

text \<open>Modelled from the spec: the terminal states (section 4.2), absent from the source
  file.\<close>

definition is_terminal :: "lifecycle \<Rightarrow> bool" where
  "is_terminal st = (st = PickedUp \<or> st = Abandoned)"

text \<open>Modelled from the spec: rule 2 of the correction algorithm (section 4.2), absent from
  the source file: the rider's proximity is set, earlier than the manual mark \<open>m\<close>, and
  inside the window.\<close>

definition proximity_bias :: "config \<Rightarrow> order \<Rightarrow> real \<Rightarrow> bool" where
  "proximity_bias c ord m =
     (case riderProximityAt ord of
        None \<Rightarrow> False
      | Some rp \<Rightarrow> rp < m \<and> m - rp \<le> proximityBiasWindow c)"

text \<open>Modelled from the spec: the correction algorithm, steps 1 to 4 (section 4.2), absent
  from the source file, whose dashboard only prints a sentence about a 1.2x correction. It
  runs on an order whose manual mark is set.\<close>

definition correction :: "config \<Rightarrow> order \<Rightarrow> order" where
  "correction c ord =
     (case manualReadyAt ord of
        None \<Rightarrow> ord
      | Some m \<Rightarrow>
          (let rule2 = proximity_bias c ord m;
               corrected =
                 (if rule2 then placedAt ord + (m - placedAt ord) * correctionFactor c else m);
               bias = (if rule2 then True else kdsStage ord \<noteq> Ready)
           in ord\<lparr>correctedReadyAt := Some corrected,
                  biasDetected := bias,
                  order_status := (if bias then BiasFlagged else Validated)\<rparr>))"

text \<open>Modelled from the spec: the transition rules of the OrderEstimator for an order that
  exists (section 4.2), absent from the source file. A late event on a terminal order is a
  \<^verbatim>\<open>TerminalStateError\<close> (section 5). The specification names no outcome for a second
  \<^verbatim>\<open>OrderPlaced\<close> on an order that exists; as the placement fields are set once
  (section 3), the order is left as it is. A pickup before any manual mark records the
  bias and the pickup time; the lifecycle state is \<^verbatim>\<open>PickedUp\<close>, as the transition
  rule says.\<close>

definition estimate :: "config \<Rightarrow> event_kind \<Rightarrow> real \<Rightarrow> order \<Rightarrow> error + order" where
  "estimate c k t ord =
     (if is_terminal (order_status ord) then Inl TerminalStateError
      else
        (case k of
           OrderPlaced src \<Rightarrow> Inr ord
         | KdsStageUpdated s \<Rightarrow>
             (if stage_rank s < stage_rank (kdsStage ord) then Inl InvalidStageTransitionError
              else Inr (ord\<lparr>kdsStage := s,
                            order_status :=
                              (if s = Started \<and> order_status ord = Placed then Preparing
                               else order_status ord)\<rparr>))
         | RiderProximityDetected \<Rightarrow>
             (case riderProximityAt ord of
                None \<Rightarrow> Inr (ord\<lparr>riderProximityAt := Some t\<rparr>)
              | Some rp \<Rightarrow> Inr ord)
         | ManualReadyMarked \<Rightarrow>
             (if order_status ord = Placed \<or> order_status ord = Preparing
              then Inr (correction c (ord\<lparr>manualReadyAt := Some t, order_status := ManuallyMarked\<rparr>))
              else Inl DuplicateMarkError)
         | OrderPickedUp \<Rightarrow>
             (case manualReadyAt ord of
                None \<Rightarrow>
                  Inr (ord\<lparr>correctedReadyAt := Some t, biasDetected := True,
                           order_status := PickedUp\<rparr>)
              | Some m \<Rightarrow> Inr (ord\<lparr>order_status := PickedUp\<rparr>))))"

subsection \<open>SignalBus and timeout sweep\<close>

text \<open>Modelled from the spec: the order created by \<^verbatim>\<open>OrderPlaced\<close> (sections 3 and 4.2),
  absent from the source file.\<close>

definition new_order :: "event \<Rightarrow> order_source \<Rightarrow> order" where
  "new_order ev src =
     \<lparr>order_id = ev_orderId ev, restaurantId = ev_restaurantId ev, source = src,
      placedAt = timestamp ev, manualReadyAt = None, kdsStage = StageNone,
      riderProximityAt = None, correctedReadyAt = None, biasDetected = False,
      order_status = Placed\<rparr>"

text \<open>Modelled from the spec: an error is attached to the audit trail and returned to the
  caller, and the order is not changed (sections 4.2 and 7); absent from the source
  file.\<close>

definition reject :: "string \<Rightarrow> error \<Rightarrow> service \<Rightarrow> error option \<times> service" where
  "reject oid e s = (Some e, s\<lparr>audit := audit s @ [(oid, e)]\<rparr>)"

text \<open>Modelled from the spec: \<^verbatim>\<open>SignalBus.submit\<close> (section 4.1), absent from the source
  file: an unknown order is created by \<^verbatim>\<open>OrderPlaced\<close> and is an
  \<^verbatim>\<open>UnknownOrderError\<close> otherwise; an event older than the placement is a
  \<^verbatim>\<open>StaleEventError\<close>; every other event goes to the estimator of its order.\<close>

definition submit :: "event \<Rightarrow> service \<Rightarrow> error option \<times> service" where
  "submit ev s =
     (case orders s (ev_orderId ev) of
        None \<Rightarrow>
          (case kind ev of
             OrderPlaced src \<Rightarrow>
               (None, s\<lparr>orders := (orders s)(ev_orderId ev \<mapsto> new_order ev src)\<rparr>)
           | ManualReadyMarked \<Rightarrow> reject (ev_orderId ev) UnknownOrderError s
           | KdsStageUpdated st \<Rightarrow> reject (ev_orderId ev) UnknownOrderError s
           | RiderProximityDetected \<Rightarrow> reject (ev_orderId ev) UnknownOrderError s
           | OrderPickedUp \<Rightarrow> reject (ev_orderId ev) UnknownOrderError s)
      | Some ord \<Rightarrow>
          (if timestamp ev < placedAt ord then reject (ev_orderId ev) StaleEventError s
           else
             (case estimate (cfg s) (kind ev) (timestamp ev) ord of
                Inl e \<Rightarrow> reject (ev_orderId ev) e s
              | Inr ord' \<Rightarrow> (None, s\<lparr>orders := (orders s)(ev_orderId ev \<mapsto> ord')\<rparr>))))"

text \<open>Modelled from the spec: the background sweep that abandons an order (sections 4.2 and
  5), absent from the source file. The sweep's clock is outside the model, so the step is
  allowed for every order that is not terminal: each state the timed service reaches is
  reached here as well.\<close>

definition abandon :: "string \<Rightarrow> service \<Rightarrow> service" where
  "abandon oid s =
     (case orders s oid of
        None \<Rightarrow> s
      | Some ord \<Rightarrow>
          (if is_terminal (order_status ord) then s
           else s\<lparr>orders := (orders s)(oid \<mapsto> ord\<lparr>order_status := Abandoned\<rparr>)\<rparr>))"

text \<open>Modelled from the spec: what happens to the service over time, a submitted event or a
  sweep that abandons one order; absent from the source file.\<close>

datatype step = Submit event | Sweep string

fun run :: "step list \<Rightarrow> service \<Rightarrow> service" where
  "run [] s = s"
| "run (Submit ev # rest) s = run rest (snd (submit ev s))"
| "run (Sweep oid # rest) s = run rest (abandon oid s)"

subsection \<open>RushAggregator\<close>

text \<open>Modelled from the spec: \<^verbatim>\<open>volumePct[source] = activeCount[source] / totalActive * 100\<close>,
  0 when \<^verbatim>\<open>totalActive\<close> is 0 (section 4.3); absent from the source file, which sends
  literals.\<close>

definition volumePct :: "real \<Rightarrow> real \<Rightarrow> real" where
  "volumePct totalActive activeCount =
     (if totalActive = 0 then 0 else activeCount / totalActive * 100)"

text \<open>Modelled from the spec: \<^verbatim>\<open>index = round(sum of volumePct * weight)\<close>, clamped to
  [0, 100] (section 4.3); absent from the source file. The argument lists, for each
  source, its active count and its weight; \<open>round\<close> rounds a half upwards, as
  \<^verbatim>\<open>Math.round\<close> does.\<close>

definition rush_index :: "(real \<times> real) list \<Rightarrow> int" where
  "rush_index bySource =
     (let totalActive = sum_list (map fst bySource);
          weighted = sum_list (map (\<lambda>cw. volumePct totalActive (fst cw) * snd cw) bySource)
      in max 0 (min 100 (round weighted)))"

text \<open>Modelled from the spec: \<^verbatim>\<open>status = High if index > 70 else Moderate if index > 40
  else Low\<close> (section 4.3); absent from the source file, where the status is a literal and
  only the dashboard compares an index with 70.\<close>

definition rush_status :: "real \<Rightarrow> string" where
  "rush_status i = (if i > 70 then ''High'' else if i > 40 then ''Moderate'' else ''Low'')"

text \<open>The counts and weights that a rush payload of the server carries.\<close>

definition payload_sources :: "live_rush \<Rightarrow> (real \<times> real) list" where
  "payload_sources data = map (\<lambda>e. (volume e, weight e)) (sources data)"

subsection \<open>Invariants used in the proofs\<close>

text \<open>An order whose corrected ready time, once computed, is not before its placement.\<close>

definition ok_order :: "order \<Rightarrow> bool" where
  "ok_order ord = (case correctedReadyAt ord of None \<Rightarrow> True | Some c \<Rightarrow> placedAt ord \<le> c)"

text \<open>A service with a correction factor above 1 in which every order is such an order.\<close>

definition ok_service :: "service \<Rightarrow> bool" where
  "ok_service s =
     (1 < correctionFactor (cfg s) \<and> (\<forall>oid ord. orders s oid = Some ord \<longrightarrow> ok_order ord))"

subsection \<open>Example inputs\<close>

definition example_request :: request where
  "example_request =
     \<lparr>req_method = ''GET'', path = ''/api/stats'', query = [(''restaurantId'', ''r1'')],
      headers = [(''accept'', ''application/json'')], body = []\<rparr>"

text \<open>A random source whose every call returns the double 0.7.\<close>

definition example_random :: "nat \<Rightarrow> double" where
  "example_random n = literal_0_7"

text \<open>The weights that the server sends, as a configuration of restaurant r1, with a window
  of five minutes and the factor 1.2; and a weight set that sums to 0.9.\<close>

definition example_weights :: "order_source \<Rightarrow> real" where
  "example_weights src =
     (case src of Zomato \<Rightarrow> 4 / 10 | Competitor \<Rightarrow> 35 / 100 | InStore \<Rightarrow> 25 / 100)"

definition short_weights :: "order_source \<Rightarrow> real" where
  "short_weights src =
     (case src of Zomato \<Rightarrow> 4 / 10 | Competitor \<Rightarrow> 3 / 10 | InStore \<Rightarrow> 2 / 10)"

definition example_config :: config where
  "example_config =
     \<lparr>sourceWeights = [(''r1'', example_weights)], proximityBiasWindow = 300,
      correctionFactor = 12 / 10, abandonTimeout = 3600\<rparr>"

definition short_config :: config where
  "short_config = example_config\<lparr>sourceWeights := [(''r1'', short_weights)]\<rparr>"

definition example_service :: service where
  "example_service = \<lparr>cfg = example_config, orders = Map.empty, audit = []\<rparr>"

definition example_event :: "event_kind \<Rightarrow> real \<Rightarrow> event" where
  "example_event k t =
     \<lparr>ev_orderId = ''ORD-1'', ev_restaurantId = ''r1'', kind = k, timestamp = t\<rparr>"

text \<open>Order ORD-1, placed at second 1000: as placed; with the rider near at 1540 and the
  manual mark at 1600, before and after the correction.\<close>

definition fresh_order :: order where
  "fresh_order =
     \<lparr>order_id = ''ORD-1'', restaurantId = ''r1'', source = Zomato, placedAt = 1000,
      manualReadyAt = None, kdsStage = StageNone, riderProximityAt = None,
      correctedReadyAt = None, biasDetected = False, order_status = Placed\<rparr>"

definition marked_order :: order where
  "marked_order =
     \<lparr>order_id = ''ORD-1'', restaurantId = ''r1'', source = Zomato, placedAt = 1000,
      manualReadyAt = Some 1600, kdsStage = StageNone, riderProximityAt = Some 1540,
      correctedReadyAt = None, biasDetected = False, order_status = ManuallyMarked\<rparr>"

definition biased_order :: order where
  "biased_order =
     \<lparr>order_id = ''ORD-1'', restaurantId = ''r1'', source = Zomato, placedAt = 1000,
      manualReadyAt = Some 1600, kdsStage = StageNone, riderProximityAt = Some 1540,
      correctedReadyAt = Some 1720, biasDetected = True, order_status = BiasFlagged\<rparr>"

definition placed_service :: service where
  "placed_service = example_service\<lparr>orders := [''ORD-1'' \<mapsto> fresh_order]\<rparr>"

definition plating_service :: service where
  "plating_service =
     example_service\<lparr>orders := [''ORD-1'' \<mapsto> fresh_order\<lparr>kdsStage := Plating\<rparr>]\<rparr>"

section \<open>Properties of the server\<close>

text \<open>
  Rounding is to the nearest: the kept mantissa, scaled back, is within half a unit of the
  exact one. For a number below 1 times a positive integer, that half unit is less than
  what the exact product lacks to reach the integer, so the rounded product stays below it.
\<close>

lemma round_nearest_aux:
  fixes p t :: int
  assumes "0 < t"
  shows "\<bar>2 * ((if t < 2 * (p mod t) \<or> (2 * (p mod t) = t \<and> odd (p div t))
               then p div t + 1 else p div t) * t) - 2 * p\<bar> \<le> t"
proof -
  define a where "a = p div t * t"
  define r where "r = p mod t"
  have d: "a + r = p" unfolding a_def r_def by (rule div_mult_mod_eq)
  have r: "0 \<le> r" "r < t" unfolding r_def using assms by simp_all
  have up: "(p div t + 1) * t = a + t" unfolding a_def by (simp add: algebra_simps)
  show ?thesis
  proof (cases "t < 2 * r \<or> (2 * r = t \<and> odd (p div t))")
    case True
    hence "t \<le> 2 * r" by auto
    hence "\<bar>2 * (a + t) - 2 * p\<bar> \<le> t" using d r by simp
    thus ?thesis using True unfolding r_def up [symmetric] by simp
  next
    case False
    hence "2 * r \<le> t" by auto
    hence "\<bar>2 * a - 2 * p\<bar> \<le> t" using d r by simp
    thus ?thesis using False unfolding r_def a_def by auto
  qed
qed

lemma round_error_aux:
  fixes p t :: int
  assumes "0 < t"
  shows "2 * ((if t < 2 * (p mod t) \<or> (2 * (p mod t) = t \<and> odd (p div t))
               then p div t + 1 else p div t) * t) \<le> 2 * p + t"
  using round_nearest_aux [OF assms, of p] by (simp only: abs_le_iff) simp

lemma round_error:
  fixes p :: int and s :: nat
  shows "2 * ((if 2 ^ s < 2 * (p mod 2 ^ s) \<or> (2 * (p mod 2 ^ s) = 2 ^ s \<and> odd (p div 2 ^ s))
               then p div 2 ^ s + 1 else p div 2 ^ s) * 2 ^ s) \<le> 2 * p + 2 ^ s"
  by (rule round_error_aux) simp

lemma shift_small:
  fixes m n e :: int
  assumes "0 < m" "m < 2 ^ 53" "0 < n"
  shows "2 ^ nat (bitlen (m * n) - 53) < 2 * n"
proof (cases "bitlen (m * n) - 53 \<le> 0")
  case True
  hence "nat (bitlen (m * n) - 53) = 0" by simp
  thus ?thesis using assms by simp
next
  case False
  define s where "s = nat (bitlen (m * n) - 53)"
  have p: "0 < m * n" using assms by simp
  have n: "nat (bitlen (m * n) - 1) = s + 52" using False by (simp add: s_def)
  have "(2::int) ^ (s + 52) \<le> m * n" using bitlen_bounds [OF p] n by simp
  also have "m * n < 2 ^ 53 * n" using assms by simp
  finally have "(2::int) ^ s * 2 ^ 52 < (2 * n) * 2 ^ 52" by (simp add: power_add)
  hence "(2::int) ^ s < 2 * n" by simp
  thus ?thesis by (simp add: s_def)
qed

lemma fmul_below:
  assumes d: "is_double (Double m e)" and m0: "0 \<le> m" and lt: "dval (Double m e) < 1"
    and n0: "0 < n"
  shows "0 \<le> dval (fmul (Double m e) (Double n 0)) \<and>
         dval (fmul (Double m e) (Double n 0)) < of_int n"
proof (cases "m = 0")
  case True
  thus ?thesis using n0 by (simp add: fmul_def round_to_double_def)
next
  case False
  hence mp: "0 < m" using m0 by simp
  have m53: "m < 2 ^ 53" and e: "- 1074 \<le> e" using d m0 by (simp_all add: is_double_def)
  define k where "k = nat (- e)"
  have eneg: "e < 0"
  proof (rule ccontr)
    assume "\<not> e < 0"
    hence "0 \<le> e" by simp
    hence "(1::real) \<le> 2 powi e" by (simp add: one_le_power_int)
    moreover have "(1::real) \<le> of_int m" using mp by simp
    ultimately have "1 * 1 \<le> of_int m * (2::real) powi e" by (intro mult_mono) simp_all
    thus False using lt by simp
  qed
  hence ek: "e = - int k" by (simp add: k_def)
  have pw: "(2::real) powi e = 1 / 2 ^ k" by (simp add: ek power_int_minus field_simps)
  have "of_int m < (2::real) ^ k" using lt by (simp add: pw field_simps)
  hence "m < 2 ^ k" by (metis of_int_less_iff of_int_numeral of_int_power)
  hence mk: "m + 1 \<le> 2 ^ k" by simp
  define p where "p = m * n"
  have pp: "0 < p" using mp n0 by (simp add: p_def)
  define s where "s = nat (bitlen p - 53)"
  have s: "nat (max 0 (max (bitlen \<bar>p\<bar> - 53) (- 1074 - e))) = s"
    using e pp by (simp add: s_def max_def)
  define q where "q = (if 2 ^ s < 2 * (p mod 2 ^ s) \<or> (2 * (p mod 2 ^ s) = 2 ^ s \<and> odd (p div 2 ^ s))
               then p div 2 ^ s + 1 else p div 2 ^ s)"
  have q0: "0 \<le> q" using pp by (simp add: q_def pos_imp_zdiv_nonneg_iff)
  have s': "max 0 (max (bitlen p - 53) (- 1074 - e)) = int s"
    using e pp by (simp add: s_def max_def)
  have res: "fmul (Double m e) (Double n 0) = Double q (e + int s)"
    using pp s' by (simp add: fmul_def round_to_double_def Let_def q_def p_def [symmetric])
  have "2 * (q * 2 ^ s) \<le> 2 * p + 2 ^ s" unfolding q_def by (rule round_error)
  also have "\<dots> < 2 * p + 2 * n"
    using shift_small [OF mp m53 n0] by (simp add: s_def p_def)
  also have "\<dots> = 2 * ((m + 1) * n)" by (simp add: p_def algebra_simps)
  also have "\<dots> \<le> 2 * (2 ^ k * n)" using mk n0 by (intro mult_left_mono mult_right_mono) simp_all
  finally have "q * 2 ^ s < n * 2 ^ k" by (simp add: mult.commute)
  hence "(of_int (q * 2 ^ s) :: real) < of_int (n * 2 ^ k)" by (simp only: of_int_less_iff)
  hence b: "of_int q * (2::real) ^ s < of_int n * 2 ^ k" by simp
  have v: "dval (Double q (e + int s)) = of_int q * 2 ^ s / 2 ^ k"
    by (simp add: power_int_add pw)
  have "dval (Double q (e + int s)) < of_int n"
    unfolding v using b by (simp add: field_simps)
  moreover have "0 \<le> dval (Double q (e + int s))" unfolding v using q0 by simp
  ultimately show ?thesis by (simp add: res)
qed

lemma math_floor_range:
  assumes "is_double d" "0 \<le> dval d" "dval d < 1" "0 < n"
  shows "0 \<le> math_floor (fmul d (Double n 0)) \<and> math_floor (fmul d (Double n 0)) < n"
proof -
  obtain m e where d: "d = Double m e" by (cases d)
  have pos: "0 < (2::real) powi e" by simp
  have "0 \<le> of_int m * (2::real) powi e" using assms(2) unfolding d by simp
  hence "0 \<le> m" using pos by (auto simp: zero_le_mult_iff)
  thus ?thesis
    using fmul_below [of m e n] assms unfolding d by (simp add: math_floor_def floor_less_iff)
qed

lemma literal_0_7_nearest: "\<bar>dval literal_0_7 - 7 / 10\<bar> < 1 / 2 ^ 54"
  by (simp add: literal_0_7_def power_int_minus)

lemma literal_0_7_unit: "is_double literal_0_7 \<and> 0 \<le> dval literal_0_7 \<and> dval literal_0_7 < 1"
  by (simp add: literal_0_7_def is_double_def power_int_minus)

lemma bitlen_0_7_times_3: "bitlen 18915118434956082 = 55" by code_simp
lemma bitlen_0_7_times_100: "bitlen 630503947831869400 = 60" by code_simp
lemma bitlen_0_7_times_10: "bitlen 63050394783186940 = 56" by code_simp

lemma simulation_order_at_0_7:
  "simulation_order (\<lambda>n. literal_0_7) i =
     \<lparr>id_sim = ''ORD-'' @ string_of_nat i, status_sim = Some ''picked_up'', progress = 70,
      isBiased = False, load = 8\<rparr>"
  by (simp add: simulation_order_def literal_0_7_def fmul_def round_to_double_def math_floor_def
      js_index_def bitlen_0_7_times_3 bitlen_0_7_times_100 bitlen_0_7_times_10 power_int_minus)

lemma bitlen_tenth_times_3: "bitlen 10808639105689191 = 54" by code_simp

lemma fmul_tenth_times_three:
  "fmul (Double 3602879701896397 (- 55)) (Double 3 0) = Double 5404319552844596 (- 54)"
  by (simp add: fmul_def round_to_double_def bitlen_tenth_times_3)

lemma simulation_ids:
  "map id_sim (map (simulation_order random) [0..<20]) =
     [''ORD-0'', ''ORD-1'', ''ORD-2'', ''ORD-3'', ''ORD-4'', ''ORD-5'', ''ORD-6'', ''ORD-7'',
      ''ORD-8'', ''ORD-9'', ''ORD-10'', ''ORD-11'', ''ORD-12'', ''ORD-13'', ''ORD-14'',
      ''ORD-15'', ''ORD-16'', ''ORD-17'', ''ORD-18'', ''ORD-19'']"
proof -
  have u: "[0..<20] = [0, 1, 2, 3, 4, 5, 6, 7, 8, 9, 10, 11, 12, 13, 14, 15, 16, 17, 18, 19::nat]"
    by (simp add: upt_rec)
  show ?thesis
    unfolding u by (simp add: simulation_order_def string_of_nat.simps digit_char_def)
qed

lemma simulation_order_fields:
  assumes "\<forall>n. is_double (random n) \<and> 0 \<le> dval (random n) \<and> dval (random n) < 1"
  shows "status_sim (simulation_order random i) \<in> {Some ''preparing'', Some ''ready'', Some ''picked_up''}"
    and "0 \<le> progress (simulation_order random i) \<and> progress (simulation_order random i) \<le> 99"
    and "1 \<le> load (simulation_order random i) \<and> load (simulation_order random i) \<le> 10"
proof -
  have r: "\<And>n k. 0 < k \<Longrightarrow>
      0 \<le> math_floor (fmul (random n) (Double k 0)) \<and> math_floor (fmul (random n) (Double k 0)) < k"
    using assms math_floor_range by blast
  have s: "0 \<le> math_floor (fmul (random (4 * i)) (Double 3 0)) \<and>
           math_floor (fmul (random (4 * i)) (Double 3 0)) < 3"
    using r [of 3 "4 * i"] by simp
  then consider "math_floor (fmul (random (4 * i)) (Double 3 0)) = 0"
    | "math_floor (fmul (random (4 * i)) (Double 3 0)) = 1"
    | "math_floor (fmul (random (4 * i)) (Double 3 0)) = 2" by linarith
  then show "status_sim (simulation_order random i) \<in> {Some ''preparing'', Some ''ready'', Some ''picked_up''}"
    by cases (simp_all add: simulation_order_def js_index_def)
  have p: "0 \<le> math_floor (fmul (random (4 * i + 1)) (Double 100 0)) \<and>
           math_floor (fmul (random (4 * i + 1)) (Double 100 0)) < 100"
    using r [of 100 "4 * i + 1"] by simp
  then show "0 \<le> progress (simulation_order random i) \<and> progress (simulation_order random i) \<le> 99"
    by (simp add: simulation_order_def)
  have l: "0 \<le> math_floor (fmul (random (4 * i + 3)) (Double 10 0)) \<and>
           math_floor (fmul (random (4 * i + 3)) (Double 10 0)) < 10"
    using r [of 10 "4 * i + 3"] by simp
  then show "1 \<le> load (simulation_order random i) \<and> load (simulation_order random i) \<le> 10"
    by (simp add: simulation_order_def)
qed

text \<open>
  Claim C8. \<^verbatim>\<open>GET /api/stats\<close> is a constant function: whatever the request and the
  database, the handler returns the same payload, with avgRiderWait 4.2, etaErrorP90 8.5,
  orderVolume 1250, activeMerchants 320, improvement 18.5, rush index 78, status High, and
  the three sources with volumes 45, 32, 22 and weights 0.4, 0.35, 0.25.
\<close>

theorem stats_handler_constant:
  "fst (stats_handler req db) = fst (stats_handler req' db') \<and>
   fst (stats_handler req db) =
     \<lparr>avgRiderWait = 42 / 10, etaErrorP90 = 85 / 10, orderVolume = 1250,
      activeMerchants = 320, improvement = 185 / 10,
      liveRush =
        \<lparr>index = 78, status = ''High'',
         sources =
           [\<lparr>name = ''Zomato Orders'', volume = 45, weight = 4 / 10\<rparr>,
            \<lparr>name = ''Competitor Orders'', volume = 32, weight = 35 / 100\<rparr>,
            \<lparr>name = ''In-Store Dining'', volume = 22, weight = 25 / 100\<rparr>]\<rparr>\<rparr>"
  by (simp add: stats_handler_def)

text \<open>
  Claim C9. \<^verbatim>\<open>GET /api/simulation/data\<close> returns an array of exactly 20 elements;
  the ids are ORD-0 to ORD-19 in this order; every element has a status among
  preparing, ready and picked_up, an integer progress between 0 and 99, a boolean isBiased
  and an integer load between 1 and 10. The hypothesis is the contract of
  \<^verbatim>\<open>Math.random\<close>: each call returns a double that is at least 0 and less than 1.
  The products are rounded as doubles before the floor is taken.
\<close>

theorem simulation_handler_shape:
  assumes "\<forall>n. is_double (random n) \<and> 0 \<le> dval (random n) \<and> dval (random n) < 1"
  shows "length (fst (simulation_handler req random db)) = 20 \<and>
         map id_sim (fst (simulation_handler req random db)) =
           [''ORD-0'', ''ORD-1'', ''ORD-2'', ''ORD-3'', ''ORD-4'', ''ORD-5'', ''ORD-6'',
            ''ORD-7'', ''ORD-8'', ''ORD-9'', ''ORD-10'', ''ORD-11'', ''ORD-12'', ''ORD-13'',
            ''ORD-14'', ''ORD-15'', ''ORD-16'', ''ORD-17'', ''ORD-18'', ''ORD-19''] \<and>
         (\<forall>x \<in> set (fst (simulation_handler req random db)).
            status_sim x \<in> {Some ''preparing'', Some ''ready'', Some ''picked_up''} \<and>
            0 \<le> progress x \<and> progress x \<le> 99 \<and> 1 \<le> load x \<and> load x \<le> 10)"
proof -
  have len: "length (fst (simulation_handler req random db)) = 20"
    by (simp add: simulation_handler_def)
  have ids: "map id_sim (fst (simulation_handler req random db)) =
           [''ORD-0'', ''ORD-1'', ''ORD-2'', ''ORD-3'', ''ORD-4'', ''ORD-5'', ''ORD-6'',
            ''ORD-7'', ''ORD-8'', ''ORD-9'', ''ORD-10'', ''ORD-11'', ''ORD-12'', ''ORD-13'',
            ''ORD-14'', ''ORD-15'', ''ORD-16'', ''ORD-17'', ''ORD-18'', ''ORD-19'']"
    using simulation_ids [of random] by (simp add: simulation_handler_def)
  have fields: "\<forall>x \<in> set (fst (simulation_handler req random db)).
            status_sim x \<in> {Some ''preparing'', Some ''ready'', Some ''picked_up''} \<and>
            0 \<le> progress x \<and> progress x \<le> 99 \<and> 1 \<le> load x \<and> load x \<le> 10"
  proof
    fix x assume "x \<in> set (fst (simulation_handler req random db))"
    then obtain i where x: "x = simulation_order random i"
      by (auto simp: simulation_handler_def)
    show "status_sim x \<in> {Some ''preparing'', Some ''ready'', Some ''picked_up''} \<and>
            0 \<le> progress x \<and> progress x \<le> 99 \<and> 1 \<le> load x \<and> load x \<le> 10"
      unfolding x using simulation_order_fields [OF assms, of i] by blast
  qed
  from len ids fields show ?thesis by blast
qed

theorem simulation_handler_shape_witness:
  "(\<forall>n. is_double (example_random n) \<and> 0 \<le> dval (example_random n) \<and>
        dval (example_random n) < 1) \<and>
   fst (simulation_handler example_request example_random Map.empty) ! 0 =
     \<lparr>id_sim = ''ORD-0'', status_sim = Some ''picked_up'', progress = 70,
      isBiased = False, load = 8\<rparr> \<and>
   length (fst (simulation_handler example_request example_random Map.empty)) = 20 \<and>
   map id_sim (fst (simulation_handler example_request example_random Map.empty)) =
           [''ORD-0'', ''ORD-1'', ''ORD-2'', ''ORD-3'', ''ORD-4'', ''ORD-5'', ''ORD-6'',
            ''ORD-7'', ''ORD-8'', ''ORD-9'', ''ORD-10'', ''ORD-11'', ''ORD-12'', ''ORD-13'',
            ''ORD-14'', ''ORD-15'', ''ORD-16'', ''ORD-17'', ''ORD-18'', ''ORD-19''] \<and>
   list_all
     (\<lambda>x. status_sim x \<in> {Some ''preparing'', Some ''ready'', Some ''picked_up''} \<and>
          0 \<le> progress x \<and> progress x \<le> 99 \<and> 1 \<le> load x \<and> load x \<le> 10)
     (fst (simulation_handler example_request example_random Map.empty))"
proof -
  have h: "\<forall>n. is_double (example_random n) \<and> 0 \<le> dval (example_random n) \<and>
        dval (example_random n) < 1"
    using literal_0_7_unit by (simp add: example_random_def)
  have e: "example_random = (\<lambda>n. literal_0_7)"
    by (rule ext) (simp add: example_random_def)
  have f: "fst (simulation_handler example_request example_random Map.empty) ! 0 =
     \<lparr>id_sim = ''ORD-0'', status_sim = Some ''picked_up'', progress = 70,
      isBiased = False, load = 8\<rparr>"
    unfolding e
    by (simp add: simulation_handler_def upt_rec simulation_order_at_0_7 string_of_nat.simps
        digit_char_def)
  show ?thesis
    unfolding list_all_iff
    using h f simulation_handler_shape [OF h, of example_request Map.empty] by blast
qed

lemma handle_request_db: "snd (handle_request matches req random db) = db"
  by (simp add: handle_request_def stats_handler_def simulation_handler_def)

lemma handle_request_reads_nothing:
  "fst (handle_request matches req random db) = fst (handle_request matches req random db')"
  by (simp add: handle_request_def stats_handler_def simulation_handler_def)

lemma serve_db: "snd (serve matches reqs db) = db"
proof (induction reqs arbitrary: db)
  case Nil
  show ?case by simp
next
  case (Cons a reqs)
  obtain req random where a: "a = (req, random)" by (cases a)
  obtain r d where h: "handle_request matches req random db = (r, d)"
    by (cases "handle_request matches req random db")
  have d: "d = db" using handle_request_db [of matches req random db] h by simp
  obtain rs e where s: "serve matches reqs db = (rs, e)" by (cases "serve matches reqs db")
  have "e = db" using Cons.IH [of db] s by simp
  thus ?case by (simp add: a h d s)
qed

lemma serve_reads_nothing: "fst (serve matches reqs db) = fst (serve matches reqs db')"
proof (induction reqs)
  case Nil
  show ?case by simp
next
  case (Cons a reqs)
  obtain req random where a: "a = (req, random)" by (cases a)
  obtain r where h: "handle_request matches req random db = (r, db)"
    using handle_request_db [of matches req random db] by (metis prod.collapse)
  have h': "handle_request matches req random db' = (r, db')"
    using handle_request_db [of matches req random db']
      handle_request_reads_nothing [of matches req random db' db] h by (metis fst_conv prod.collapse)
  obtain rs where s: "serve matches reqs db = (rs, db)"
    using serve_db [of matches reqs db] by (metis prod.collapse)
  have s': "serve matches reqs db' = (rs, db')"
    using serve_db [of matches reqs db'] Cons.IH s by (metis fst_conv prod.collapse)
  show ?case by (simp add: a h h' s s')
qed

text \<open>
  Claim C10. Neither \<^verbatim>\<open>GET /api/stats\<close> nor \<^verbatim>\<open>GET /api/simulation/data\<close> reads
  or writes the orders table: each handler returns the database it was given and the same
  answer for any two databases, and so does the server over any sequence of requests. The
  only statement that touches the table is the one run at start-up, which adds an empty
  orders table when there is none and changes no other table.
\<close>

theorem requests_leave_database:
  "snd (stats_handler req db) = db \<and>
   snd (simulation_handler req random db) = db \<and>
   fst (stats_handler req db) = fst (stats_handler req db') \<and>
   fst (simulation_handler req random db) = fst (simulation_handler req random db') \<and>
   snd (handle_request matches req random db) = db \<and>
   snd (serve matches reqs db) = db \<and>
   fst (serve matches reqs db) = fst (serve matches reqs db') \<and>
   (init_db db)(''orders'' := None) = db(''orders'' := None) \<and>
   init_db (init_db db) = init_db db"
proof -
  have i1: "(init_db db)(''orders'' := None) = db(''orders'' := None)"
    by (cases "db ''orders''") (simp_all add: init_db_def)
  have i2: "init_db (init_db db) = init_db db"
    by (cases "db ''orders''") (simp_all add: init_db_def)
  show ?thesis
    using i1 i2 serve_db [of matches reqs db] serve_reads_nothing [of matches reqs db db']
      handle_request_db [of matches req random db]
    by (simp add: stats_handler_def simulation_handler_def)
qed

section \<open>The rush index: the specification's formula and the server's literals\<close>

lemmas example_defs = example_weights_def example_config_def example_service_def
  example_event_def short_weights_def short_config_def

lemmas core_defs = submit_def reject_def estimate_def correction_def proximity_bias_def
  new_order_def is_terminal_def abandon_def

lemma rush_index_example: "rush_index [(45, 4 / 10), (32, 35 / 100), (22, 25 / 100)] = 35"
  by (simp add: rush_index_def volumePct_def round_def)

lemma rush_index_bounds: "0 \<le> rush_index bySource \<and> rush_index bySource \<le> 100"
  by (simp add: rush_index_def Let_def)

lemma rush_index_idle: "rush_index [(0, w1), (0, w2), (0, w3)] = 0"
  by (simp add: rush_index_def volumePct_def)

lemma stats_payload_sources:
  "payload_sources (liveRush (fst (stats_handler req db))) =
     [(45, 4 / 10), (32, 35 / 100), (22, 25 / 100)]"
  by (simp add: payload_sources_def stats_handler_def)

text \<open>
  Claim C1, as stated, fails on the server. The claim: the published rush index is the
  rounded, clamped weighted sum of the volume percentages, so that counts 45, 32, 22 with
  weights 0.4, 0.35, 0.25 are served as index 35 with status Low. The server sends exactly
  these counts and weights, for which the formula gives 35, together with the index 78
  and the status High.
\<close>

theorem served_index_counterexample:
  "payload_sources (liveRush (fst (stats_handler example_request (init_db Map.empty)))) =
     [(45, 4 / 10), (32, 35 / 100), (22, 25 / 100)] \<and>
   rush_index (payload_sources (liveRush (fst (stats_handler example_request (init_db Map.empty)))))
     = 35 \<and>
   index (liveRush (fst (stats_handler example_request (init_db Map.empty)))) = 78 \<and>
   index (liveRush (fst (stats_handler example_request (init_db Map.empty)))) \<noteq>
     of_int
       (rush_index
          (payload_sources (liveRush (fst (stats_handler example_request (init_db Map.empty)))))) \<and>
   status (liveRush (fst (stats_handler example_request (init_db Map.empty)))) = ''High'' \<and>
   status (liveRush (fst (stats_handler example_request (init_db Map.empty)))) \<noteq> ''Low''"
proof -
  have i: "index (liveRush (fst (stats_handler example_request (init_db Map.empty)))) = 78"
    and s: "status (liveRush (fst (stats_handler example_request (init_db Map.empty)))) = ''High''"
    by (simp_all add: stats_handler_def)
  show ?thesis
    unfolding stats_payload_sources rush_index_example i s by simp
qed

text \<open>
  Claim C1, amended. The formula of the specification (the rounded weighted sum of the
  volume percentages, clamped to 0..100) gives 35, status Low, for counts 45, 32, 22 with
  weights 0.4, 0.35, 0.25, and lies between 0 and 100 for all counts and weights. The
  server does not compute it: for every request and database it sends these counts and
  weights with the fixed index 78 and the status High.
\<close>

theorem rush_formula_and_served_index:
  "rush_index [(45, 4 / 10), (32, 35 / 100), (22, 25 / 100)] = 35 \<and>
   rush_status 35 = ''Low'' \<and>
   0 \<le> rush_index bySource \<and> rush_index bySource \<le> 100 \<and>
   payload_sources (liveRush (fst (stats_handler req db))) =
     [(45, 4 / 10), (32, 35 / 100), (22, 25 / 100)] \<and>
   index (liveRush (fst (stats_handler req db))) = 78 \<and>
   status (liveRush (fst (stats_handler req db))) = ''High''"
proof -
  have "rush_status 35 = ''Low''" by (simp add: rush_status_def)
  moreover have "index (liveRush (fst (stats_handler req db))) = 78"
    and "status (liveRush (fst (stats_handler req db))) = ''High''"
    by (simp_all add: stats_handler_def)
  ultimately show ?thesis
    using rush_index_example rush_index_bounds [of bySource] stats_payload_sources [of req db]
    by simp
qed

text \<open>
  Claim C2. The status band follows the index alone, with thresholds 40 and 70: High above
  70, Moderate above 40 and up to 70, Low up to 40. The band function is the
  specification's; the status that the server publishes is the band of the index it
  publishes, for every request, and the dashboard's badge is red exactly when the band of
  the index is High.
\<close>

theorem served_status_is_band_of_index:
  "status (liveRush (fst (stats_handler req db))) =
     rush_status (index (liveRush (fst (stats_handler req db)))) \<and>
   (badge_class data = ''bg-rose-50 text-rose-600'') = (rush_status (index data) = ''High'') \<and>
   (rush_status i = ''High'') = (70 < i) \<and>
   (rush_status i = ''Moderate'') = (40 < i \<and> i \<le> 70) \<and>
   (rush_status i = ''Low'') = (i \<le> 40)"
proof -
  have "status (liveRush (fst (stats_handler req db))) =
     rush_status (index (liveRush (fst (stats_handler req db))))"
    by (simp add: stats_handler_def rush_status_def)
  moreover have "(badge_class data = ''bg-rose-50 text-rose-600'') = (rush_status (index data) = ''High'')"
    by (simp add: badge_class_def rush_status_def)
  moreover have "(rush_status i = ''High'') = (70 < i)"
    and "(rush_status i = ''Moderate'') = (40 < i \<and> i \<le> 70)"
    and "(rush_status i = ''Low'') = (i \<le> 40)"
    by (auto simp: rush_status_def)
  ultimately show ?thesis by blast
qed

text \<open>
  Claim C6, as stated, fails on the server. The claim: the rush index of a restaurant with
  no active orders is the zero state, index 0 and status Low. Right after start-up the
  orders table is empty, so no restaurant has an active order, and a request for
  restaurant r1 is answered with index 78 and status High.
\<close>

theorem idle_restaurant_counterexample:
  "map_option rows (init_db Map.empty ''orders'') = Some [] \<and>
   query example_request = [(''restaurantId'', ''r1'')] \<and>
   index (liveRush (fst (stats_handler example_request (init_db Map.empty)))) = 78 \<and>
   index (liveRush (fst (stats_handler example_request (init_db Map.empty)))) \<noteq> 0 \<and>
   status (liveRush (fst (stats_handler example_request (init_db Map.empty)))) = ''High'' \<and>
   status (liveRush (fst (stats_handler example_request (init_db Map.empty)))) \<noteq> ''Low''"
  by (simp add: stats_handler_def init_db_def example_request_def)

text \<open>
  Claim C6, amended. The rush endpoint never fails: for every request and every database,
  also one with no orders, the handler returns its fixed payload, whose index is 78 and
  whose status is High, and leaves the database as it was. The zero state belongs to the
  specification's formula: with no active order every volume percentage is 0, the index
  is 0 and its band is Low.
\<close>

theorem rush_endpoint_total_and_formula_zero_state:
  "stats_handler req db = (fst (stats_handler example_request Map.empty), db) \<and>
   index (liveRush (fst (stats_handler req db))) = 78 \<and>
   status (liveRush (fst (stats_handler req db))) = ''High'' \<and>
   volumePct 0 activeCount = 0 \<and>
   rush_index [(0, w1), (0, w2), (0, w3)] = 0 \<and>
   rush_status (of_int (rush_index [(0, w1), (0, w2), (0, w3)])) = ''Low''"
proof -
  have "stats_handler req db = (fst (stats_handler example_request Map.empty), db)"
    and "index (liveRush (fst (stats_handler req db))) = 78"
    and "status (liveRush (fst (stats_handler req db))) = ''High''"
    by (simp_all add: stats_handler_def)
  moreover have "volumePct 0 activeCount = 0" by (simp add: volumePct_def)
  moreover have "rush_status (of_int (rush_index [(0, w1), (0, w2), (0, w3)])) = ''Low''"
    unfolding rush_index_idle by (simp add: rush_status_def)
  ultimately show ?thesis using rush_index_idle [of w1 w2 w3] by simp
qed

section \<open>Properties of the estimation core\<close>

subsection \<open>Configuration load\<close>

lemma start_example: "start_service example_config = Inr example_service"
  by (simp add: start_service_def load_config_def weights_valid_def weight_sum_def example_defs)

lemma load_config_valid:
  assumes "(r, w) \<in> set (sourceWeights raw)" "load_config raw = Inr c"
  shows "c = raw \<and> weights_valid w"
  using assms by (auto simp: load_config_def list_all_iff split: if_splits)

lemma load_config_invalid:
  assumes "(r, w) \<in> set (sourceWeights raw)" "\<not> weights_valid w"
  shows "load_config raw = Inl ConfigValidationError"
  using assms by (force simp: load_config_def list_all_iff)

text \<open>
  Claim C3. The source weights of every restaurant sum to 1.0 within 1e-6, validated at
  configuration load: a service only starts from a configuration in which each
  restaurant's weights do; a weight set whose sum is further from 1 than the tolerance,
  such as one that sums to 0.9, fails with ConfigValidationError and the service does not
  start. The weights that the server sends sum to 1.
\<close>

theorem weights_validated_at_load:
  "((r, w) \<in> set (sourceWeights raw) \<and> start_service raw = Inr s \<longrightarrow>
      cfg s = raw \<and> \<bar>weight_sum w - 1\<bar> \<le> 1 / 1000000) \<and>
   ((r, w) \<in> set (sourceWeights raw) \<and> 1 / 1000000 < \<bar>weight_sum w - 1\<bar> \<longrightarrow>
      load_config raw = Inl ConfigValidationError \<and>
      start_service raw = Inl ConfigValidationError) \<and>
   ((r, w) \<in> set (sourceWeights raw) \<and> weight_sum w = 9 / 10 \<longrightarrow>
      load_config raw = Inl ConfigValidationError \<and>
      start_service raw = Inl ConfigValidationError) \<and>
   sum_list (map weight (sources (liveRush (fst (stats_handler req db))))) = 1"
proof (intro conjI impI)
  assume a: "(r, w) \<in> set (sourceWeights raw) \<and> start_service raw = Inr s"
  then obtain c where c: "load_config raw = Inr c" "cfg s = c"
    by (auto simp: start_service_def split: sum.splits)
  from load_config_valid [OF _ c(1)] a c(2)
  show "cfg s = raw" "\<bar>weight_sum w - 1\<bar> \<le> 1 / 1000000"
    by (auto simp: weights_valid_def)
next
  assume a: "(r, w) \<in> set (sourceWeights raw) \<and> 1 / 1000000 < \<bar>weight_sum w - 1\<bar>"
  hence "\<not> weights_valid w" by (simp add: weights_valid_def)
  with a show l: "load_config raw = Inl ConfigValidationError"
    using load_config_invalid by blast
  thus "start_service raw = Inl ConfigValidationError" by (simp add: start_service_def)
next
  assume a: "(r, w) \<in> set (sourceWeights raw) \<and> weight_sum w = 9 / 10"
  hence "\<not> weights_valid w" by (simp add: weights_valid_def)
  with a show l: "load_config raw = Inl ConfigValidationError"
    using load_config_invalid by blast
  thus "start_service raw = Inl ConfigValidationError" by (simp add: start_service_def)
next
  show "sum_list (map weight (sources (liveRush (fst (stats_handler req db))))) = 1"
    by (simp add: stats_handler_def)
qed

theorem weights_validated_at_load_witness:
  "(''r1'', example_weights) \<in> set (sourceWeights example_config) \<and>
   start_service example_config = Inr example_service \<and>
   cfg example_service = example_config \<and>
   \<bar>weight_sum example_weights - 1\<bar> \<le> 1 / 1000000 \<and>
   (''r1'', short_weights) \<in> set (sourceWeights short_config) \<and>
   weight_sum short_weights = 9 / 10 \<and>
   1 / 1000000 < \<bar>weight_sum short_weights - 1\<bar> \<and>
   load_config short_config = Inl ConfigValidationError \<and>
   start_service short_config = Inl ConfigValidationError"
proof -
  have g: "(''r1'', example_weights) \<in> set (sourceWeights example_config)"
    by (simp add: example_config_def)
  have b: "(''r1'', short_weights) \<in> set (sourceWeights short_config)"
    by (simp add: short_config_def)
  have n: "weight_sum short_weights = 9 / 10"
    by (simp add: weight_sum_def short_weights_def)
  have f: "1 / 1000000 < \<bar>weight_sum short_weights - 1\<bar>"
    by (simp add: n)
  show ?thesis
    using g b n f start_example
      weights_validated_at_load [of "''r1''" example_weights example_config example_service]
      weights_validated_at_load [of "''r1''" short_weights short_config]
    by simp
qed

subsection \<open>Bias correction\<close>

text \<open>
  Claim C4. For an order whose rider proximity is set, earlier than the manual mark and
  within the proximity window of it, the correction algorithm sets biasDetected and
  correctedReadyAt = placedAt + (manualReadyAt - placedAt) * correctionFactor. With the
  order placed at t0, the mark at t0 + 10 min, the proximity at t0 + 9 min, a window of
  5 min and the factor 1.2, bias is detected and correctedReadyAt is t0 + 12 min.
\<close>

theorem proximity_bias_correction:
  "(manualReadyAt ord = Some m \<and> riderProximityAt ord = Some rp \<and> rp < m \<and>
    m - rp \<le> proximityBiasWindow c \<longrightarrow>
      biasDetected (correction c ord) \<and>
      correctedReadyAt (correction c ord) =
        Some (placedAt ord + (m - placedAt ord) * correctionFactor c) \<and>
      order_status (correction c ord) = BiasFlagged) \<and>
   biasDetected
     (correction (c\<lparr>proximityBiasWindow := 300, correctionFactor := 12 / 10\<rparr>)
        (ord\<lparr>placedAt := t0, manualReadyAt := Some (t0 + 600),
              riderProximityAt := Some (t0 + 540)\<rparr>)) \<and>
   correctedReadyAt
     (correction (c\<lparr>proximityBiasWindow := 300, correctionFactor := 12 / 10\<rparr>)
        (ord\<lparr>placedAt := t0, manualReadyAt := Some (t0 + 600),
              riderProximityAt := Some (t0 + 540)\<rparr>)) = Some (t0 + 720)"
  by (simp add: correction_def proximity_bias_def Let_def)

theorem proximity_bias_correction_witness:
  "manualReadyAt marked_order = Some 1600 \<and> riderProximityAt marked_order = Some 1540 \<and>
   (1540::real) < 1600 \<and> 1600 - 1540 \<le> proximityBiasWindow example_config \<and>
   biasDetected (correction example_config marked_order) \<and>
   correctedReadyAt (correction example_config marked_order) = Some 1720 \<and>
   order_status (correction example_config marked_order) = BiasFlagged \<and>
   correction example_config marked_order = biased_order"
proof -
  have h: "manualReadyAt marked_order = Some 1600 \<and> riderProximityAt marked_order = Some 1540 \<and>
    (1540::real) < 1600 \<and> 1600 - 1540 \<le> proximityBiasWindow example_config"
    by (simp add: marked_order_def example_config_def)
  have v: "placedAt marked_order + (1600 - placedAt marked_order) * correctionFactor example_config = 1720"
    by (simp add: marked_order_def example_config_def)
  have e: "correction example_config marked_order = biased_order"
    by (simp add: correction_def proximity_bias_def marked_order_def biased_order_def example_config_def)
  show ?thesis
    using h v e proximity_bias_correction [of marked_order 1600 1540 example_config]
    by simp
qed

subsection \<open>The corrected time is never before the placement\<close>

lemma correction_placedAt: "placedAt (correction c ord) = placedAt ord"
  by (simp add: correction_def Let_def split: option.splits)

lemma correction_kdsStage: "kdsStage (correction c ord) = kdsStage ord"
  by (simp add: correction_def Let_def split: option.splits)

lemma stretch_ge:
  assumes "1 < (f::real)" "p \<le> m"
  shows "p \<le> p + (m - p) * f"
proof -
  have "0 \<le> (m - p) * f" using assms by (intro mult_nonneg_nonneg) simp_all
  thus ?thesis by simp
qed

lemma correction_ok:
  assumes "1 < correctionFactor c" "manualReadyAt ord = Some m" "placedAt ord \<le> m"
  shows "ok_order (correction c ord)"
  using assms stretch_ge [of "correctionFactor c" "placedAt ord" m]
  by (simp add: correction_def Let_def ok_order_def)

lemma estimate_placedAt: "estimate c k t ord = Inr ord' \<Longrightarrow> placedAt ord' = placedAt ord"
  by (cases k) (auto simp: estimate_def correction_placedAt split: if_splits option.splits)

lemma estimate_ok:
  assumes "1 < correctionFactor c" "placedAt ord \<le> t" "ok_order ord" "estimate c k t ord = Inr ord'"
  shows "ok_order ord'"
proof (cases k)
  case ManualReadyMarked
  have "ok_order (correction c (ord\<lparr>manualReadyAt := Some t, order_status := ManuallyMarked\<rparr>))"
    using assms(1,2) by (intro correction_ok [where m = t]) simp_all
  with assms(4) ManualReadyMarked show ?thesis
    by (auto simp: estimate_def split: if_splits)
next
  case OrderPickedUp
  with assms show ?thesis
    by (auto simp: estimate_def ok_order_def split: if_splits option.splits)
qed (use assms in \<open>auto simp: estimate_def ok_order_def split: if_splits option.splits\<close>)

lemma submit_cfg: "cfg (snd (submit ev s)) = cfg s"
  by (auto simp: submit_def reject_def split: option.splits event_kind.splits sum.splits)

lemma submit_ok:
  assumes "ok_service s"
  shows "ok_service (snd (submit ev s))"
proof -
  have f: "1 < correctionFactor (cfg s)" and o: "\<And>oid ord. orders s oid = Some ord \<Longrightarrow> ok_order ord"
    using assms by (auto simp: ok_service_def)
  show ?thesis
  proof (cases "orders s (ev_orderId ev)")
    case None
    have "ok_order (new_order ev src)" for src by (simp add: ok_order_def new_order_def)
    with None f o show ?thesis
      by (cases "kind ev") (auto simp: submit_def reject_def ok_service_def)
  next
    case (Some ord)
    show ?thesis
    proof (cases "timestamp ev < placedAt ord")
      case True
      with Some f o show ?thesis by (auto simp: submit_def reject_def ok_service_def)
    next
      case False
      show ?thesis
      proof (cases "estimate (cfg s) (kind ev) (timestamp ev) ord")
        case (Inl e)
        with Some False f o show ?thesis by (auto simp: submit_def reject_def ok_service_def)
      next
        case (Inr ord')
        have "ok_order ord'"
          using estimate_ok [OF f _ o [OF Some] Inr] False by simp
        with Some False Inr f o show ?thesis by (auto simp: submit_def ok_service_def)
      qed
    qed
  qed
qed

lemma abandon_ok:
  assumes "ok_service s"
  shows "ok_service (abandon oid s)"
  using assms by (auto simp: abandon_def ok_service_def ok_order_def split: option.splits)

lemma run_ok: "ok_service s \<Longrightarrow> ok_service (run steps s)"
proof (induction steps arbitrary: s)
  case Nil
  then show ?case by simp
next
  case (Cons a steps)
  then show ?case by (cases a) (simp_all add: submit_ok abandon_ok)
qed

lemma start_ok: "start_service raw = Inr s0 \<Longrightarrow> ok_service s0"
  by (auto simp: start_service_def load_config_def ok_service_def split: if_splits)

lemma run_example:
  "orders (run [Submit (example_event (OrderPlaced Zomato) 1000),
                Submit (example_event RiderProximityDetected 1540),
                Submit (example_event ManualReadyMarked 1600)] example_service) ''ORD-1'' = Some biased_order"
  by (simp add: core_defs example_defs biased_order_def)

text \<open>
  Claim C5. In every state that a started service reaches by submitted events and
  sweeps, the correctedReadyAt of every order, once computed, is not earlier than its
  placedAt: every operation that computes it (the manual mark, the pickup before any
  mark) keeps this.
\<close>

theorem corrected_not_before_placed:
  assumes "start_service raw = Inr s0"
    and "orders (run steps s0) oid = Some ord"
    and "correctedReadyAt ord = Some c"
  shows "placedAt ord \<le> c"
proof -
  have "ok_service (run steps s0)" using assms(1) by (intro run_ok start_ok)
  hence "ok_order ord" using assms(2) by (auto simp: ok_service_def)
  thus ?thesis using assms(3) by (simp add: ok_order_def)
qed

theorem corrected_not_before_placed_witness:
  "start_service example_config = Inr example_service \<and>
   orders (run [Submit (example_event (OrderPlaced Zomato) 1000),
                Submit (example_event RiderProximityDetected 1540),
                Submit (example_event ManualReadyMarked 1600)] example_service) ''ORD-1''
     = Some biased_order \<and>
   correctedReadyAt biased_order = Some 1720 \<and>
   placedAt biased_order \<le> 1720"
proof -
  have c: "correctedReadyAt biased_order = Some 1720" by (simp add: biased_order_def)
  show ?thesis
    using start_example run_example c
      corrected_not_before_placed [OF start_example run_example c] by simp
qed

subsection \<open>The kitchen stage never regresses\<close>

lemma estimate_stage:
  "estimate c k t ord = Inr ord' \<Longrightarrow> stage_rank (kdsStage ord) \<le> stage_rank (kdsStage ord')"
  by (cases k) (auto simp: estimate_def correction_kdsStage split: if_splits option.splits)

lemma submit_stage:
  assumes "orders s oid = Some ord"
  shows "\<exists>ord'. orders (snd (submit ev s)) oid = Some ord' \<and>
           stage_rank (kdsStage ord) \<le> stage_rank (kdsStage ord')"
proof (cases "ev_orderId ev = oid")
  case False
  with assms show ?thesis
    by (auto simp: submit_def reject_def split: option.splits event_kind.splits sum.splits)
next
  case True
  show ?thesis
  proof (cases "estimate (cfg s) (kind ev) (timestamp ev) ord")
    case (Inl e)
    with assms True show ?thesis by (auto simp: submit_def reject_def)
  next
    case (Inr ord')
    with assms True estimate_stage [OF Inr] show ?thesis by (auto simp: submit_def reject_def)
  qed
qed

lemma abandon_stage:
  assumes "orders s oid = Some ord"
  shows "\<exists>ord'. orders (abandon x s) oid = Some ord' \<and>
           stage_rank (kdsStage ord) \<le> stage_rank (kdsStage ord')"
  using assms by (auto simp: abandon_def split: option.splits)

lemma run_stage:
  "orders s oid = Some ord \<Longrightarrow>
     \<exists>ord'. orders (run steps s) oid = Some ord' \<and>
       stage_rank (kdsStage ord) \<le> stage_rank (kdsStage ord')"
proof (induction steps arbitrary: s ord)
  case Nil
  then show ?case by simp
next
  case (Cons a steps)
  show ?case
  proof (cases a)
    case (Submit ev)
    obtain o1 where o1: "orders (snd (submit ev s)) oid = Some o1"
      "stage_rank (kdsStage ord) \<le> stage_rank (kdsStage o1)"
      using submit_stage [OF Cons.prems] by blast
    obtain o2 where "orders (run steps (snd (submit ev s))) oid = Some o2"
      "stage_rank (kdsStage o1) \<le> stage_rank (kdsStage o2)"
      using Cons.IH [OF o1(1)] by blast
    with o1 Submit show ?thesis by auto
  next
    case (Sweep x)
    obtain o1 where o1: "orders (abandon x s) oid = Some o1"
      "stage_rank (kdsStage ord) \<le> stage_rank (kdsStage o1)"
      using abandon_stage [OF Cons.prems] by blast
    obtain o2 where "orders (run steps (abandon x s)) oid = Some o2"
      "stage_rank (kdsStage o1) \<le> stage_rank (kdsStage o2)"
      using Cons.IH [OF o1(1)] by blast
    with o1 Sweep show ?thesis by auto
  qed
qed

lemma regress_rejected:
  assumes "orders s oid = Some ord" "\<not> is_terminal (order_status ord)" "placedAt ord \<le> t"
    "stage_rank st < stage_rank (kdsStage ord)"
  shows "submit \<lparr>ev_orderId = oid, ev_restaurantId = r, kind = KdsStageUpdated st, timestamp = t\<rparr> s
           = (Some InvalidStageTransitionError, s\<lparr>audit := audit s @ [(oid, InvalidStageTransitionError)]\<rparr>)"
  using assms by (simp add: submit_def estimate_def reject_def)

lemma plating_accepted:
  assumes "orders s oid = Some ord" "\<not> is_terminal (order_status ord)" "placedAt ord \<le> t"
    "stage_rank (kdsStage ord) \<le> stage_rank Plating"
  shows "submit \<lparr>ev_orderId = oid, ev_restaurantId = r, kind = KdsStageUpdated Plating, timestamp = t\<rparr> s
           = (None, s\<lparr>orders := (orders s)(oid \<mapsto> ord\<lparr>kdsStage := Plating\<rparr>)\<rparr>)"
  using assms by (simp add: submit_def estimate_def reject_def)

lemma placed_example:
  "snd (submit (example_event (OrderPlaced Zomato) 1000) example_service) = placed_service"
  by (simp add: core_defs example_defs placed_service_def fresh_order_def)

lemma plating_example:
  "snd (submit (example_event (KdsStageUpdated Plating) 1100) placed_service) = plating_service"
  by (simp add: core_defs example_defs placed_service_def plating_service_def fresh_order_def)

text \<open>
  Claim C7. The kitchen stage of an order never decreases, whatever events and sweeps
  follow. An update to an earlier stage is rejected with InvalidStageTransitionError and
  changes nothing but the audit trail; in particular, after KdsStageUpdated(plating), a
  KdsStageUpdated(started) is rejected with that error and the stage remains plating.
\<close>

theorem kds_stage_monotone:
  assumes "orders s oid = Some ord"
  shows "(\<exists>ord'. orders (run steps s) oid = Some ord' \<and>
            stage_rank (kdsStage ord) \<le> stage_rank (kdsStage ord')) \<and>
         (\<not> is_terminal (order_status ord) \<and> placedAt ord \<le> t \<and>
          stage_rank st < stage_rank (kdsStage ord) \<longrightarrow>
            submit \<lparr>ev_orderId = oid, ev_restaurantId = r, kind = KdsStageUpdated st, timestamp = t\<rparr> s
              = (Some InvalidStageTransitionError,
                 s\<lparr>audit := audit s @ [(oid, InvalidStageTransitionError)]\<rparr>)) \<and>
         (\<not> is_terminal (order_status ord) \<and> placedAt ord \<le> t \<and> placedAt ord \<le> t' \<and>
          stage_rank (kdsStage ord) \<le> stage_rank Plating \<longrightarrow>
            (\<exists>s1. submit \<lparr>ev_orderId = oid, ev_restaurantId = r, kind = KdsStageUpdated Plating, timestamp = t\<rparr> s
                     = (None, s1) \<and>
                  fst (submit \<lparr>ev_orderId = oid, ev_restaurantId = r, kind = KdsStageUpdated Started, timestamp = t'\<rparr> s1)
                     = Some InvalidStageTransitionError \<and>
                  orders (snd (submit \<lparr>ev_orderId = oid, ev_restaurantId = r, kind = KdsStageUpdated Started, timestamp = t'\<rparr> s1))
                     = orders s1 \<and>
                  map_option kdsStage (orders s1 oid) = Some Plating))"
proof (intro conjI impI)
  show "\<exists>ord'. orders (run steps s) oid = Some ord' \<and>
            stage_rank (kdsStage ord) \<le> stage_rank (kdsStage ord')"
    using run_stage [OF assms] .
next
  assume "\<not> is_terminal (order_status ord) \<and> placedAt ord \<le> t \<and>
          stage_rank st < stage_rank (kdsStage ord)"
  thus "submit \<lparr>ev_orderId = oid, ev_restaurantId = r, kind = KdsStageUpdated st, timestamp = t\<rparr> s
              = (Some InvalidStageTransitionError,
                 s\<lparr>audit := audit s @ [(oid, InvalidStageTransitionError)]\<rparr>)"
    using regress_rejected [OF assms] by blast
next
  assume a: "\<not> is_terminal (order_status ord) \<and> placedAt ord \<le> t \<and> placedAt ord \<le> t' \<and>
          stage_rank (kdsStage ord) \<le> stage_rank Plating"
  let ?s1 = "s\<lparr>orders := (orders s)(oid \<mapsto> ord\<lparr>kdsStage := Plating\<rparr>)\<rparr>"
  have p: "submit \<lparr>ev_orderId = oid, ev_restaurantId = r, kind = KdsStageUpdated Plating, timestamp = t\<rparr> s
             = (None, ?s1)"
    using plating_accepted [OF assms] a by blast
  have q: "submit \<lparr>ev_orderId = oid, ev_restaurantId = r, kind = KdsStageUpdated Started, timestamp = t'\<rparr> ?s1
             = (Some InvalidStageTransitionError, ?s1\<lparr>audit := audit ?s1 @ [(oid, InvalidStageTransitionError)]\<rparr>)"
    using a by (intro regress_rejected [where ord = "ord\<lparr>kdsStage := Plating\<rparr>"]) simp_all
  show "\<exists>s1. submit \<lparr>ev_orderId = oid, ev_restaurantId = r, kind = KdsStageUpdated Plating, timestamp = t\<rparr> s
                     = (None, s1) \<and>
                  fst (submit \<lparr>ev_orderId = oid, ev_restaurantId = r, kind = KdsStageUpdated Started, timestamp = t'\<rparr> s1)
                     = Some InvalidStageTransitionError \<and>
                  orders (snd (submit \<lparr>ev_orderId = oid, ev_restaurantId = r, kind = KdsStageUpdated Started, timestamp = t'\<rparr> s1))
                     = orders s1 \<and>
                  map_option kdsStage (orders s1 oid) = Some Plating"
    by (rule exI [of _ ?s1]) (simp add: p q)
qed

theorem kds_stage_monotone_witness:
  "snd (submit (example_event (OrderPlaced Zomato) 1000) example_service) = placed_service \<and>
   snd (submit (example_event (KdsStageUpdated Plating) 1100) placed_service) = plating_service \<and>
   orders placed_service ''ORD-1'' = Some fresh_order \<and>
   \<not> is_terminal (order_status fresh_order) \<and> placedAt fresh_order \<le> 1100 \<and>
   placedAt fresh_order \<le> 1200 \<and> stage_rank (kdsStage fresh_order) \<le> stage_rank Plating \<and>
   (\<exists>ord'. orders (run [Submit (example_event (KdsStageUpdated Plating) 1100),
                         Submit (example_event (KdsStageUpdated Started) 1200)] placed_service) ''ORD-1''
              = Some ord' \<and>
            stage_rank (kdsStage fresh_order) \<le> stage_rank (kdsStage ord')) \<and>
   (\<exists>s1. submit (example_event (KdsStageUpdated Plating) 1100) placed_service = (None, s1) \<and>
         fst (submit (example_event (KdsStageUpdated Started) 1200) s1)
           = Some InvalidStageTransitionError \<and>
         orders (snd (submit (example_event (KdsStageUpdated Started) 1200) s1)) = orders s1 \<and>
         map_option kdsStage (orders s1 ''ORD-1'') = Some Plating) \<and>
   orders plating_service ''ORD-1'' = Some (fresh_order\<lparr>kdsStage := Plating\<rparr>) \<and>
   stage_rank Started < stage_rank (kdsStage (fresh_order\<lparr>kdsStage := Plating\<rparr>)) \<and>
   submit (example_event (KdsStageUpdated Started) 1200) plating_service
     = (Some InvalidStageTransitionError,
        plating_service\<lparr>audit := audit plating_service @ [(''ORD-1'', InvalidStageTransitionError)]\<rparr>) \<and>
   map_option kdsStage
     (orders (run [Submit (example_event (KdsStageUpdated Plating) 1100),
                   Submit (example_event (KdsStageUpdated Started) 1200)] placed_service) ''ORD-1'')
     = Some Plating"
proof -
  have a: "orders placed_service ''ORD-1'' = Some fresh_order"
    by (simp add: placed_service_def)
  have b: "orders plating_service ''ORD-1'' = Some (fresh_order\<lparr>kdsStage := Plating\<rparr>)"
    by (simp add: plating_service_def)
  have f: "\<not> is_terminal (order_status fresh_order) \<and> placedAt fresh_order \<le> 1100 \<and>
    placedAt fresh_order \<le> 1200 \<and> stage_rank (kdsStage fresh_order) \<le> stage_rank Plating"
    by (simp add: fresh_order_def is_terminal_def)
  have g: "\<not> is_terminal (order_status (fresh_order\<lparr>kdsStage := Plating\<rparr>)) \<and>
    placedAt (fresh_order\<lparr>kdsStage := Plating\<rparr>) \<le> 1200 \<and>
    stage_rank Started < stage_rank (kdsStage (fresh_order\<lparr>kdsStage := Plating\<rparr>))"
    by (simp add: fresh_order_def is_terminal_def)
  have r: "map_option kdsStage
     (orders (run [Submit (example_event (KdsStageUpdated Plating) 1100),
                   Submit (example_event (KdsStageUpdated Started) 1200)] placed_service) ''ORD-1'')
     = Some Plating"
    by (simp add: core_defs example_defs placed_service_def fresh_order_def)
  note t1 = kds_stage_monotone [OF a,
      of "[Submit (example_event (KdsStageUpdated Plating) 1100),
           Submit (example_event (KdsStageUpdated Started) 1200)]" 1100 Plating "''r1''" 1200]
  note t2 = kds_stage_monotone [OF b, of "[]" 1200 Started "''r1''" 1200]
  show ?thesis
    using placed_example plating_example a b f g r t1 t2 unfolding example_event_def by simp
qed

end
